theory Spec2Isabelle
  imports Complex_Main "HOL-Library.Word"
begin

section \<open>Data model of \<^verbatim>\<open>src/index.ts\<close>\<close>

text \<open>
  A JavaScript string is a sequence of UTF-16 code units; \<^verbatim>\<open>length\<close> and
  \<^verbatim>\<open>slice\<close> count code units. String literals of the source are ASCII and are
  written with \<open>lit\<close>.
\<close>

type_synonym jsstring = "16 word list"

definition lit :: "string \<Rightarrow> jsstring" where
  "lit s = map (\<lambda>c. of_nat (of_char c)) s"

text \<open>
  The configuration constants read from the environment at start-up (lines 17-21).
  They are integers (spec section 6); a negative value is possible and is kept.
\<close>

record config =
  batchSize :: int
  maxQueueSize :: int
  maxDeadQueueSize :: int

text \<open>
  \<^verbatim>\<open>type RequestRecord\<close> (lines 23-29). \<open>received_at\<close> is a millisecond timestamp;
  \<open>http_method\<close> is the field \<^verbatim>\<open>method\<close> of the source, a name Isabelle reserves.
\<close>

record RequestRecord =
  trace_id :: jsstring
  received_at :: nat
  http_method :: jsstring
  path :: jsstring
  payload :: "jsstring option"

text \<open>\<^verbatim>\<open>type DeadLetterRecord = RequestRecord & { error: string }\<close> (lines 31-33).\<close>

record DeadLetterRecord = RequestRecord +
  error :: jsstring

text \<open>The object spread \<^verbatim>\<open>{ ...record, error: e }\<close> applied to a \<open>RequestRecord\<close>.\<close>

definition withError :: "RequestRecord \<Rightarrow> jsstring \<Rightarrow> DeadLetterRecord" where
  "withError rec e =
     \<lparr>trace_id = trace_id rec, received_at = received_at rec, http_method = http_method rec,
      path = path rec, payload = payload rec, error = e\<rparr>"

text \<open>
  JavaScript numbers are IEEE 754 doubles. The counters and the histogram entries are
  whole numbers that only ever grow by one, far below \<open>2\<^sup>5\<^sup>3\<close>, where double arithmetic
  is exact: they are modelled as \<open>nat\<close>. Latencies, the latency sum and the percentile
  threshold are fractional: a finite double is modelled as the \<open>real\<close> it denotes, and
  comparing two doubles is comparing these reals. The sum and the product of two doubles
  are rounded to a double, so they are not the sum and the product of the reals: the
  two operations of the machine are parameters of the model, \<open>num_add\<close> for \<^verbatim>\<open>+\<close> and
  \<open>num_mul\<close> for \<^verbatim>\<open>*\<close>, and nothing is assumed of them. Only finite doubles are
  modelled: a latency is the difference of two readings of \<^verbatim>\<open>performance.now()\<close>, and
  \<^verbatim>\<open>percentile\<close> is called with 0.5, 0.95 and 0.99 only (lines 396-402).
\<close>

record arith =
  num_add :: "real \<Rightarrow> real \<Rightarrow> real"
  num_mul :: "real \<Rightarrow> real \<Rightarrow> real"

text \<open>
  The module-level variables (lines 35-52). \<open>console\<close> collects the lines written with
  \<^verbatim>\<open>console.error\<close> by the queue code.
\<close>

record state =
  pending :: "RequestRecord list"
  deadLetters :: "DeadLetterRecord list"
  flushing :: bool
  deadFlushing :: bool
  totalReceived :: nat
  totalAccepted :: nat
  totalRejected :: nat
  totalDeadLetters :: nat
  totalDbErrors :: nat
  lastFlushAt :: "nat option"
  lastDeadFlushAt :: "nat option"
  lastFlushError :: "jsstring option"
  lastDeadFlushError :: "jsstring option"
  latencyHistogram :: "nat list"
  latencySumMs :: real
  latencyCount :: nat
  console :: "jsstring list"

definition latencyBucketsMs :: "nat list" where
  "latencyBucketsMs = [1, 2, 5, 10, 20, 50, 100, 200, 500, 1000, 2000, 5000, 10000]"

text \<open>The values of the module-level variables when the module has been loaded.\<close>

definition initial_state :: state where
  "initial_state =
     \<lparr>pending = [], deadLetters = [], flushing = False, deadFlushing = False,
      totalReceived = 0, totalAccepted = 0, totalRejected = 0, totalDeadLetters = 0,
      totalDbErrors = 0, lastFlushAt = None, lastDeadFlushAt = None,
      lastFlushError = None, lastDeadFlushError = None,
      latencyHistogram = replicate (length latencyBucketsMs + 1) 0,
      latencySumMs = 0, latencyCount = 0, console = []\<rparr>"

text \<open>
  A thrown value, as \<^verbatim>\<open>formatError\<close> (lines 313-319) sees it: an \<^verbatim>\<open>Error\<close> with
  its message, or any other value with its \<^verbatim>\<open>String(...)\<close> rendering.
\<close>

datatype thrown = ErrorObject jsstring | NonError jsstring

fun formatError :: "thrown \<Rightarrow> jsstring" where
  "formatError (ErrorObject message) = message"
| "formatError (NonError rendering) = rendering"

text \<open>The outcome of one awaited batch insert into the durable store.\<close>

datatype db_result = Inserted | InsertFailed thrown


section \<open>Latency recorder\<close>

text \<open>\<^verbatim>\<open>Array.prototype.findIndex\<close>; \<open>None\<close> stands for the result \<^verbatim>\<open>-1\<close>.\<close>

fun findIndex :: "('a \<Rightarrow> bool) \<Rightarrow> 'a list \<Rightarrow> nat option" where
  "findIndex P [] = None"
| "findIndex P (x # xs) = (if P x then Some 0 else map_option Suc (findIndex P xs))"

text \<open>
  \<^verbatim>\<open>recordLatency\<close> (lines 321-330). Line 328 adds two doubles; the histogram entry
  and the count grow by one.
\<close>

definition recordLatency :: "arith \<Rightarrow> real \<Rightarrow> state \<Rightarrow> state" where
  "recordLatency ar valueMs s =
     (let h = latencyHistogram s;
          h' = (case findIndex (\<lambda>limit. valueMs \<le> real limit) latencyBucketsMs of
                  None \<Rightarrow> h[length h - 1 := h ! (length h - 1) + 1]
                | Some bucketIndex \<Rightarrow> h[bucketIndex := h ! bucketIndex + 1])
      in s\<lparr>latencyHistogram := h',
           latencySumMs := num_add ar (latencySumMs s) valueMs,
           latencyCount := latencyCount s + 1\<rparr>)"

text \<open>
  The loop of \<^verbatim>\<open>percentile\<close> (lines 338-344), from index \<open>i\<close> with the running
  total \<open>cumulative\<close>.
\<close>

function percentile_loop :: "real \<Rightarrow> nat list \<Rightarrow> nat \<Rightarrow> nat \<Rightarrow> nat" where
  "percentile_loop threshold h i cumulative =
     (if i < length h then
        (let cumulative' = cumulative + h ! i in
         if real cumulative' \<ge> threshold then
           (if i < length latencyBucketsMs then latencyBucketsMs ! i
            else latencyBucketsMs ! (length latencyBucketsMs - 1))
         else percentile_loop threshold h (i + 1) cumulative')
      else latencyBucketsMs ! (length latencyBucketsMs - 1))"
  by pat_completeness auto
termination
  by (relation "measure (\<lambda>(threshold, h, i, cumulative). length h - i)") auto

declare percentile_loop.simps [simp del]

text \<open>
  \<^verbatim>\<open>percentile\<close> (lines 332-345). Line 336 multiplies two doubles, the count and
  \<^verbatim>\<open>targetPercentile\<close>; line 340 compares the running total with the product.
\<close>

definition percentile :: "arith \<Rightarrow> real \<Rightarrow> state \<Rightarrow> nat" where
  "percentile ar targetPercentile s =
     (if latencyCount s = 0 then 0
      else percentile_loop (num_mul ar (real (latencyCount s)) targetPercentile)
             (latencyHistogram s) 0 0)"

text \<open>
  The number of samples in the buckets \<open>0..i\<close>: the cumulative count up to and
  including bucket \<open>i\<close>, as \<^verbatim>\<open>renderMetrics\<close> prints it (lines 386-391).
\<close>

definition cumulativeCount :: "state \<Rightarrow> nat \<Rightarrow> nat" where
  "cumulativeCount s i = sum_list (take (Suc i) (latencyHistogram s))"


section \<open>Admission\<close>

text \<open>\<^verbatim>\<open>enqueueDeadLetter\<close> (lines 300-311).\<close>

definition enqueueDeadLetter :: "config \<Rightarrow> RequestRecord \<Rightarrow> jsstring \<Rightarrow> state \<Rightarrow> state" where
  "enqueueDeadLetter cfg rec err s =
     (if int (length (deadLetters s)) \<ge> maxDeadQueueSize cfg then
        s\<lparr>console := console s @ [lit ''Dead letter queue overflow, dropping record.'']\<rparr>
      else
        s\<lparr>totalDeadLetters := totalDeadLetters s + 1,
          deadLetters := deadLetters s @ [withError rec (take 1000 err)]\<rparr>)"

text \<open>
  What \<^verbatim>\<open>handleRequest\<close> reads from a request: \<^verbatim>\<open>req.method\<close>, \<^verbatim>\<open>url.pathname\<close>, the
  \<^verbatim>\<open>x-trace-id\<close> header (\<open>None\<close> when absent) and the outcome of \<^verbatim>\<open>await req.text()\<close>.
\<close>

datatype body_read = BodyText jsstring | BodyFailed thrown

record Request =
  req_method :: jsstring
  pathname :: jsstring
  x_trace_id :: "jsstring option"
  body :: body_read

text \<open>
  What one call of \<^verbatim>\<open>handleRequest\<close> reads from its environment:
  \<^verbatim>\<open>crypto.randomUUID()\<close>, \<^verbatim>\<open>new Date()\<close> and \<^verbatim>\<open>performance.now() - start\<close>.
\<close>

record ambient =
  randomUUID :: jsstring
  date :: nat
  elapsedMs :: real

text \<open>The response: its status and its \<^verbatim>\<open>x-trace-id\<close> header.\<close>

record Response =
  status :: nat
  trace_header :: "jsstring option"

text \<open>
  The branch for \<^verbatim>\<open>POST /api/v1/events\<close> (lines 156-227) has one suspension point,
  \<^verbatim>\<open>await req.text()\<close>. \<open>handleEvent_begin\<close> is the part before it,
  \<open>handleEvent_resume\<close> the part after it, ending with the \<^verbatim>\<open>finally\<close> block.
\<close>

definition handleEvent_begin :: "state \<Rightarrow> state" where
  "handleEvent_begin s = s\<lparr>totalReceived := totalReceived s + 1\<rparr>"

definition handleEvent_resume :: "arith \<Rightarrow> config \<Rightarrow> Request \<Rightarrow> ambient \<Rightarrow> state \<Rightarrow> Response \<times> state" where
  "handleEvent_resume ar cfg req amb s =
     (let traceId = (case x_trace_id req of Some t \<Rightarrow> t | None \<Rightarrow> randomUUID amb);
          (resp, s') =
            (case body req of
               BodyFailed e \<Rightarrow>
                 (let s1 = enqueueDeadLetter cfg
                             \<lparr>trace_id = traceId, received_at = date amb, http_method = req_method req,
                              path = pathname req, payload = None\<rparr>
                             (lit ''body_read_failed: '' @ formatError e) s
                  in (\<lparr>status = 400, trace_header = Some traceId\<rparr>,
                      s1\<lparr>totalRejected := totalRejected s1 + 1\<rparr>))
             | BodyText text \<Rightarrow>
                 (let payload = (if length text = 0 then None else Some text);
                      rec = \<lparr>trace_id = traceId, received_at = date amb, http_method = req_method req,
                             path = pathname req, payload = payload\<rparr>
                  in if int (length (pending s)) \<ge> maxQueueSize cfg then
                       (let s1 = enqueueDeadLetter cfg rec (lit ''queue_overflow'') s
                        in (\<lparr>status = 503, trace_header = Some traceId\<rparr>,
                            s1\<lparr>totalRejected := totalRejected s1 + 1\<rparr>))
                     else
                       (\<lparr>status = 202, trace_header = Some traceId\<rparr>,
                        s\<lparr>pending := pending s @ [rec],
                          totalAccepted := totalAccepted s + 1\<rparr>)))
      in (resp, recordLatency ar (elapsedMs amb) s'))"

text \<open>
  \<^verbatim>\<open>handleRequest\<close> (lines 103-230) when nothing else runs during the body read. The
  health and metrics branches only read the state.
\<close>

definition handleRequest :: "arith \<Rightarrow> config \<Rightarrow> Request \<Rightarrow> ambient \<Rightarrow> state \<Rightarrow> Response \<times> state" where
  "handleRequest ar cfg req amb s =
     (if req_method req = lit ''GET'' \<and> pathname req = lit ''/api/health'' then
        (\<lparr>status = 200, trace_header = None\<rparr>, s)
      else if req_method req = lit ''GET'' \<and> pathname req = lit ''/metrics'' then
        (\<lparr>status = 200, trace_header = None\<rparr>, s)
      else if req_method req = lit ''POST'' \<and> pathname req = lit ''/api/v1/events'' then
        handleEvent_resume ar cfg req amb (handleEvent_begin s)
      else (\<lparr>status = 404, trace_header = None\<rparr>, s))"


section \<open>Flush cycles\<close>

text \<open>
  \<^verbatim>\<open>flushQueue\<close> (lines 232-257) has one suspension point, the awaited insert.
  \<open>flushQueue_start\<close> is the part before it: \<open>None\<close> is the early return, otherwise
  the batch taken by \<^verbatim>\<open>pending.splice(0, batchSize)\<close> (which takes no element
  for a count below one) and the state left behind.
\<close>

definition flushQueue_start :: "config \<Rightarrow> state \<Rightarrow> (RequestRecord list \<times> state) option" where
  "flushQueue_start cfg s =
     (if flushing s \<or> length (pending s) = 0 then None
      else Some (take (nat (batchSize cfg)) (pending s),
                 s\<lparr>flushing := True, pending := drop (nat (batchSize cfg)) (pending s)\<rparr>))"

text \<open>
  The part after the insert has settled: the end of the \<^verbatim>\<open>try\<close> block or the
  \<^verbatim>\<open>catch\<close> block, then the \<^verbatim>\<open>finally\<close> block with \<^verbatim>\<open>Date.now()\<close> = \<open>now\<close>.
\<close>

definition flushQueue_settle :: "db_result \<Rightarrow> nat \<Rightarrow> RequestRecord list \<Rightarrow> state \<Rightarrow> state" where
  "flushQueue_settle r now batch s =
     (let s1 = (case r of
                  Inserted \<Rightarrow> s\<lparr>lastFlushError := None\<rparr>
                | InsertFailed e \<Rightarrow>
                    (let errorMessage = formatError e
                     in s\<lparr>totalDbErrors := totalDbErrors s + 1,
                          lastFlushError := Some errorMessage,
                          deadLetters := deadLetters s @
                            map (\<lambda>rec. withError rec (lit ''insert_failed: '' @ errorMessage)) batch\<rparr>))
      in s1\<lparr>lastFlushAt := Some now, flushing := False\<rparr>)"

text \<open>One call of \<^verbatim>\<open>flushQueue\<close> when nothing else runs during the insert.\<close>

definition flushQueue :: "config \<Rightarrow> db_result \<Rightarrow> nat \<Rightarrow> state \<Rightarrow> state" where
  "flushQueue cfg r now s =
     (case flushQueue_start cfg s of
        None \<Rightarrow> s
      | Some (batch, s1) \<Rightarrow> flushQueue_settle r now batch s1)"

text \<open>\<^verbatim>\<open>flushDeadLetters\<close> (lines 259-298), split in the same way.\<close>

definition flushDeadLetters_start :: "config \<Rightarrow> state \<Rightarrow> (DeadLetterRecord list \<times> state) option" where
  "flushDeadLetters_start cfg s =
     (if deadFlushing s \<or> length (deadLetters s) = 0 then None
      else Some (take (nat (batchSize cfg)) (deadLetters s),
                 s\<lparr>deadFlushing := True,
                   deadLetters := drop (nat (batchSize cfg)) (deadLetters s)\<rparr>))"

definition flushDeadLetters_settle ::
    "config \<Rightarrow> db_result \<Rightarrow> nat \<Rightarrow> DeadLetterRecord list \<Rightarrow> state \<Rightarrow> state" where
  "flushDeadLetters_settle cfg r now batch s =
     (let s1 = (case r of
                  Inserted \<Rightarrow> s\<lparr>lastDeadFlushError := None\<rparr>
                | InsertFailed e \<Rightarrow>
                    (let errorMessage = formatError e;
                         s2 = s\<lparr>totalDbErrors := totalDbErrors s + 1,
                                lastDeadFlushError := Some errorMessage\<rparr>;
                         requeue = map (\<lambda>rec. rec\<lparr>error :=
                                     take 1000 (error rec @ lit ''; dead_letter_insert_failed: ''
                                                @ errorMessage)\<rparr>) batch
                     in if int (length (deadLetters s2)) + int (length requeue)
                             \<le> maxDeadQueueSize cfg then
                          s2\<lparr>deadLetters := requeue @ deadLetters s2\<rparr>
                        else
                          s2\<lparr>console := console s2 @
                               [lit ''Dead letter queue overflow, dropping records.'']\<rparr>))
      in s1\<lparr>lastDeadFlushAt := Some now, deadFlushing := False\<rparr>)"

definition flushDeadLetters :: "config \<Rightarrow> db_result \<Rightarrow> nat \<Rightarrow> state \<Rightarrow> state" where
  "flushDeadLetters cfg r now s =
     (case flushDeadLetters_start cfg s of
        None \<Rightarrow> s
      | Some (batch, s1) \<Rightarrow> flushDeadLetters_settle cfg r now batch s1)"


section \<open>The server as a transition system\<close>

text \<open>
  All code runs on one thread and is interleaved only at its \<^verbatim>\<open>await\<close>s. A state of
  the server is the module state together with what the suspended calls hold: the batch
  of the \<^verbatim>\<open>flushQueue\<close> call in flight, the batch of the \<^verbatim>\<open>flushDeadLetters\<close> call
  in flight, and the number of event requests whose body is being read.
\<close>

record server =
  vars :: state
  flushBatch :: "RequestRecord list option"
  deadBatch :: "DeadLetterRecord list option"
  readingBody :: nat

datatype event =
    Arrive
  | BodyRead Request ambient
  | FlushTick
  | FlushSettled db_result nat
  | DeadFlushTick
  | DeadFlushSettled db_result nat

fun step :: "arith \<Rightarrow> config \<Rightarrow> server \<Rightarrow> event \<Rightarrow> server" where
  "step ar cfg sv Arrive =
     sv\<lparr>vars := handleEvent_begin (vars sv), readingBody := readingBody sv + 1\<rparr>"
| "step ar cfg sv (BodyRead req amb) =
     (if readingBody sv = 0 then sv
      else sv\<lparr>vars := snd (handleEvent_resume ar cfg req amb (vars sv)),
              readingBody := readingBody sv - 1\<rparr>)"
| "step ar cfg sv FlushTick =
     (case flushQueue_start cfg (vars sv) of
        None \<Rightarrow> sv
      | Some (batch, s1) \<Rightarrow> sv\<lparr>vars := s1, flushBatch := Some batch\<rparr>)"
| "step ar cfg sv (FlushSettled r now) =
     (case flushBatch sv of
        None \<Rightarrow> sv
      | Some batch \<Rightarrow> sv\<lparr>vars := flushQueue_settle r now batch (vars sv), flushBatch := None\<rparr>)"
| "step ar cfg sv DeadFlushTick =
     (case flushDeadLetters_start cfg (vars sv) of
        None \<Rightarrow> sv
      | Some (batch, s1) \<Rightarrow> sv\<lparr>vars := s1, deadBatch := Some batch\<rparr>)"
| "step ar cfg sv (DeadFlushSettled r now) =
     (case deadBatch sv of
        None \<Rightarrow> sv
      | Some batch \<Rightarrow>
          sv\<lparr>vars := flushDeadLetters_settle cfg r now batch (vars sv), deadBatch := None\<rparr>)"

definition run :: "arith \<Rightarrow> config \<Rightarrow> server \<Rightarrow> event list \<Rightarrow> server" where
  "run ar cfg sv evs = foldl (step ar cfg) sv evs"

definition initial_server :: server where
  "initial_server =
     \<lparr>vars = initial_state, flushBatch = None, deadBatch = None, readingBody = 0\<rparr>"

section \<open>Example inputs\<close>

text \<open>The configuration with the defaults of lines 17-21, and four smaller ones.\<close>

definition default_config :: config where
  "default_config = \<lparr>batchSize = 1000, maxQueueSize = 200000, maxDeadQueueSize = 100000\<rparr>"

definition small_queue_config :: config where
  "small_queue_config = \<lparr>batchSize = 1000, maxQueueSize = 2, maxDeadQueueSize = 100000\<rparr>"

definition no_dead_room_config :: config where
  "no_dead_room_config = \<lparr>batchSize = 1000, maxQueueSize = 2, maxDeadQueueSize = 0\<rparr>"

definition tiny_dead_config :: config where
  "tiny_dead_config = \<lparr>batchSize = 1000, maxQueueSize = 200000, maxDeadQueueSize = 1\<rparr>"

definition roomy_config :: config where
  "roomy_config = \<lparr>batchSize = 2, maxQueueSize = 10, maxDeadQueueSize = 3\<rparr>"

definition tight_config :: config where
  "tight_config = \<lparr>batchSize = 2, maxQueueSize = 10, maxDeadQueueSize = 2\<rparr>"

text \<open>
  Arithmetic without rounding. Double arithmetic gives the same results wherever the
  exact result is a double, as it is for the whole numbers and the halves of the
  examples below.
\<close>

definition exact_arith :: arith where
  "exact_arith = \<lparr>num_add = (+), num_mul = (*)\<rparr>"

text \<open>A record, a dead letter, two requests and the environment of a call.\<close>

definition sample_record :: RequestRecord where
  "sample_record =
     \<lparr>trace_id = lit ''t-1'', received_at = 1700000000000, http_method = lit ''POST'',
      path = lit ''/api/v1/events'', payload = Some (lit ''{}'')\<rparr>"

definition sample_dead :: DeadLetterRecord where
  "sample_dead = withError sample_record (lit ''queue_overflow'')"

definition sample_request :: Request where
  "sample_request =
     \<lparr>req_method = lit ''POST'', pathname = lit ''/api/v1/events'',
      x_trace_id = Some (lit ''t-1''), body = BodyText (lit ''{}'')\<rparr>"

definition empty_request :: Request where
  "empty_request =
     \<lparr>req_method = lit ''POST'', pathname = lit ''/api/v1/events'',
      x_trace_id = None, body = BodyText []\<rparr>"

definition sample_ambient :: ambient where
  "sample_ambient =
     \<lparr>randomUUID = lit ''123e4567-e89b-42d3-a456-426614174000'',
      date = 1700000000000, elapsedMs = 3\<rparr>"

definition connection_refused :: thrown where
  "connection_refused = ErrorObject (lit ''connection refused'')"

text \<open>States: both flushes in flight, five records pending, three dead letters waiting.\<close>

definition busy_state :: state where
  "busy_state =
     initial_state\<lparr>pending := [sample_record], flushing := True,
                   deadLetters := [sample_dead], deadFlushing := True\<rparr>"

definition five_pending_state :: state where
  "five_pending_state =
     initial_state\<lparr>pending :=
       [sample_record, sample_record, sample_record, sample_record, sample_record]\<rparr>"

definition three_dead_state :: state where
  "three_dead_state = initial_state\<lparr>deadLetters := [sample_dead, sample_dead, sample_dead]\<rparr>"

text \<open>Three event requests handled one after the other on a fresh server.\<close>

definition admit3 :: "config \<Rightarrow> state" where
  "admit3 cfg =
     snd (handleRequest exact_arith cfg sample_request sample_ambient
       (snd (handleRequest exact_arith cfg sample_request sample_ambient
         (snd (handleRequest exact_arith cfg sample_request sample_ambient initial_state)))))"

text \<open>Two event requests are accepted, then one flush of the queue fails.\<close>

definition failed_flush_events :: "event list" where
  "failed_flush_events =
     [Arrive, BodyRead sample_request sample_ambient,
      Arrive, BodyRead sample_request sample_ambient,
      FlushTick, FlushSettled (InsertFailed connection_refused) 1700000000025]"

text \<open>One latency sample, above the largest bucket bound.\<close>

definition overflow_only_state :: state where
  "overflow_only_state = recordLatency exact_arith 50000 initial_state"


section \<open>String literals\<close>

lemma lit_code_unit: "unat (of_nat (of_char c) :: 16 word) = of_char c"
proof -
  have "(of_char c :: nat) < 256" by simp
  then have "(of_char c :: nat) < 65536" by linarith
  then show ?thesis by (simp add: unat_of_nat)
qed

lemma lit_eq_iff: "lit a = lit b \<longleftrightarrow> a = b"
proof -
  have "inj (\<lambda>c. of_nat (of_char c) :: 16 word)"
  proof (rule injI)
    fix x y :: char
    assume "(of_nat (of_char x) :: 16 word) = of_nat (of_char y)"
    then have "unat (of_nat (of_char x) :: 16 word) = unat (of_nat (of_char y) :: 16 word)"
      by simp
    then have "(of_char x :: nat) = of_char y" by (simp only: lit_code_unit)
    then show "x = y" by simp
  qed
  then show ?thesis unfolding lit_def by (simp add: inj_map_eq_map)
qed

lemma length_lit: "length (lit s) = length s"
  by (simp add: lit_def)


section \<open>Facts used throughout\<close>

lemma handleRequest_post:
  "req_method req = lit ''POST'' \<Longrightarrow> pathname req = lit ''/api/v1/events'' \<Longrightarrow>
   handleRequest ar cfg req amb s = handleEvent_resume ar cfg req amb (handleEvent_begin s)"
  by (simp add: handleRequest_def lit_eq_iff)

lemma recordLatency_frame [simp]:
  "pending (recordLatency ar v s) = pending s"
  "deadLetters (recordLatency ar v s) = deadLetters s"
  "totalReceived (recordLatency ar v s) = totalReceived s"
  "totalAccepted (recordLatency ar v s) = totalAccepted s"
  "totalRejected (recordLatency ar v s) = totalRejected s"
  "totalDeadLetters (recordLatency ar v s) = totalDeadLetters s"
  "console (recordLatency ar v s) = console s"
  "flushing (recordLatency ar v s) = flushing s"
  "deadFlushing (recordLatency ar v s) = deadFlushing s"
  by (simp_all add: recordLatency_def Let_def)

text \<open>
  A dead letter made from a record carries the five fields of the record and the given
  error; cutting the error off gives the record back.
\<close>

lemma withError_fields:
  "trace_id (withError rec e) = trace_id rec"
  "received_at (withError rec e) = received_at rec"
  "http_method (withError rec e) = http_method rec"
  "path (withError rec e) = path rec"
  "payload (withError rec e) = payload rec"
  "error (withError rec e) = e"
  "RequestRecord.truncate (withError rec e) = rec"
  by (simp_all add: withError_def RequestRecord.truncate_def)

lemma truncate_withError_batch:
  "map RequestRecord.truncate (map (\<lambda>rec. withError rec e) batch) = batch"
  "map (RequestRecord.truncate \<circ> (\<lambda>rec. withError rec e)) batch = batch"
  by (induction batch) (simp_all add: withError_fields)

lemma sample_request_post:
  "req_method sample_request = lit ''POST''"
  "pathname sample_request = lit ''/api/v1/events''"
  "body sample_request = BodyText (lit ''{}'')"
  by (simp_all add: sample_request_def)

section \<open>Flushes that do nothing\<close>

text \<open>
  Claim C8. A call of \<^verbatim>\<open>flushQueue\<close> while \<open>flushing\<close> is set or \<open>pending\<close> is empty
  returns the whole state as it was (queues, counters, error strings, time stamps, log),
  takes no batch, and leaves the server where it was; likewise \<^verbatim>\<open>flushDeadLetters\<close>
  with \<open>deadFlushing\<close> and \<open>deadLetters\<close>.
\<close>

theorem flush_noop:
  "(flushing s \<or> pending s = [] \<longrightarrow>
      flushQueue cfg r now s = s \<and> flushQueue_start cfg s = None)
   \<and> (deadFlushing s \<or> deadLetters s = [] \<longrightarrow>
      flushDeadLetters cfg r' now' s = s \<and> flushDeadLetters_start cfg s = None)
   \<and> (flushing (vars sv) \<or> pending (vars sv) = [] \<longrightarrow> step ar cfg sv FlushTick = sv)
   \<and> (deadFlushing (vars sv) \<or> deadLetters (vars sv) = [] \<longrightarrow>
      step ar cfg sv DeadFlushTick = sv)"
  by (auto simp: flushQueue_def flushQueue_start_def
                 flushDeadLetters_def flushDeadLetters_start_def)

text \<open>
  The flush in flight with a non-empty queue, and the empty queue of a fresh server; the
  insert would have failed in the first case.
\<close>

theorem flush_noop_witness:
  "(flushing busy_state \<or> pending busy_state = [])
   \<and> (deadFlushing busy_state \<or> deadLetters busy_state = [])
   \<and> pending busy_state \<noteq> [] \<and> deadLetters busy_state \<noteq> []
   \<and> flushQueue default_config (InsertFailed connection_refused) 5 busy_state = busy_state
   \<and> flushDeadLetters default_config (InsertFailed connection_refused) 6 busy_state = busy_state
   \<and> (flushing initial_state \<or> pending initial_state = [])
   \<and> (deadFlushing initial_state \<or> deadLetters initial_state = [])
   \<and> flushQueue default_config Inserted 7 initial_state = initial_state
   \<and> flushDeadLetters default_config Inserted 8 initial_state = initial_state
   \<and> (flushing (vars initial_server) \<or> pending (vars initial_server) = [])
   \<and> (deadFlushing (vars initial_server) \<or> deadLetters (vars initial_server) = [])
   \<and> step exact_arith default_config initial_server FlushTick = initial_server
   \<and> step exact_arith default_config initial_server DeadFlushTick = initial_server"
  using flush_noop [where s = busy_state and cfg = default_config
          and r = "InsertFailed connection_refused" and now = 5
          and r' = "InsertFailed connection_refused" and now' = 6
          and sv = initial_server and ar = exact_arith]
        flush_noop [where s = initial_state and cfg = default_config
          and r = Inserted and now = 7 and r' = Inserted and now' = 8
          and sv = initial_server and ar = exact_arith]
  by (simp add: busy_state_def initial_state_def initial_server_def)


section \<open>A failed flush of the record queue\<close>

text \<open>
  Claim C2. Let the record queue be non-empty and no flush be in flight, and let the
  insert of the flush fail with \<open>e\<close>. The batch is the first \<open>batchSize\<close> records of
  the queue; the flush leaves the queue shorter by the length of the batch, adds one to
  \<open>totalDbErrors\<close>, stores the message of \<open>e\<close> as \<open>lastFlushError\<close>, and appends one
  dead letter for every record of the batch, in order, to the tail of the dead-letter
  queue. The dead letter at position \<open>i\<close> of the appended part has the trace id, time,
  method, path and payload of the record at position \<open>i\<close> of the batch, and the error
  \<^verbatim>\<open>insert_failed: \<close> followed by the message; without their errors the appended dead
  letters are the batch. The last conjunct says the same of the part after the insert,
  from whatever state \<open>s2\<close> the server has reached meanwhile.
\<close>

theorem flushQueue_insert_failed:
  assumes "pending s \<noteq> []" and "\<not> flushing s"
  shows "let batch = take (nat (batchSize cfg)) (pending s);
             s' = flushQueue cfg (InsertFailed e) now s
         in totalDbErrors s' = totalDbErrors s + 1
          \<and> lastFlushError s' = Some (formatError e)
          \<and> pending s = batch @ pending s'
          \<and> length (pending s') = length (pending s) - length batch
          \<and> deadLetters s' = deadLetters s @
               map (\<lambda>rec. withError rec (lit ''insert_failed: '' @ formatError e)) batch
          \<and> take (length (deadLetters s)) (deadLetters s') = deadLetters s
          \<and> length (deadLetters s') = length (deadLetters s) + length batch
          \<and> map RequestRecord.truncate (drop (length (deadLetters s)) (deadLetters s')) = batch
          \<and> (\<forall>i < length batch.
                let d = deadLetters s' ! (length (deadLetters s) + i); rec = batch ! i
                in trace_id d = trace_id rec \<and> received_at d = received_at rec
                 \<and> http_method d = http_method rec \<and> path d = path rec
                 \<and> payload d = payload rec
                 \<and> error d = lit ''insert_failed: '' @ formatError e)
          \<and> (\<exists>s1. flushQueue_start cfg s = Some (batch, s1) \<and> pending s = batch @ pending s1)
          \<and> (\<forall>s2. let s3 = flushQueue_settle (InsertFailed e) now batch s2 in
                 totalDbErrors s3 = totalDbErrors s2 + 1
               \<and> lastFlushError s3 = Some (formatError e)
               \<and> pending s3 = pending s2
               \<and> deadLetters s3 = deadLetters s2 @
                    map (\<lambda>rec. withError rec (lit ''insert_failed: '' @ formatError e)) batch
               \<and> map RequestRecord.truncate
                    (drop (length (deadLetters s2)) (deadLetters s3)) = batch
               \<and> map error (drop (length (deadLetters s2)) (deadLetters s3))
                    = replicate (length batch) (lit ''insert_failed: '' @ formatError e))"
proof -
  let ?batch = "take (nat (batchSize cfg)) (pending s)"
  let ?err = "lit ''insert_failed: '' @ formatError e"
  let ?dead = "map (\<lambda>rec. withError rec ?err) ?batch"
  let ?s1 = "s\<lparr>flushing := True, pending := drop (nat (batchSize cfg)) (pending s)\<rparr>"
  let ?s' = "flushQueue cfg (InsertFailed e) now s"
  have start: "flushQueue_start cfg s = Some (?batch, ?s1)"
    using assms by (simp add: flushQueue_start_def)
  have whole: "?s' = flushQueue_settle (InsertFailed e) now ?batch ?s1"
    by (simp add: flushQueue_def start)
  have settle_db: "totalDbErrors (flushQueue_settle (InsertFailed e) now ?batch s2)
                     = totalDbErrors s2 + 1"
    and settle_err: "lastFlushError (flushQueue_settle (InsertFailed e) now ?batch s2)
                     = Some (formatError e)"
    and settle_pending: "pending (flushQueue_settle (InsertFailed e) now ?batch s2) = pending s2"
    and settle_dead: "deadLetters (flushQueue_settle (InsertFailed e) now ?batch s2)
                     = deadLetters s2 @ ?dead" for s2
    by (simp_all add: flushQueue_settle_def Let_def)
  have settle_truncate: "map RequestRecord.truncate
      (drop (length (deadLetters s2))
         (deadLetters (flushQueue_settle (InsertFailed e) now ?batch s2))) = ?batch" for s2
    by (simp add: settle_dead truncate_withError_batch)
  have errors: "map error ?dead = replicate (length ?batch) ?err"
    by (induction ?batch) (simp_all add: withError_fields map_replicate_const o_def)
  have settle_errors: "map error
      (drop (length (deadLetters s2))
         (deadLetters (flushQueue_settle (InsertFailed e) now ?batch s2)))
      = replicate (length ?batch) ?err" for s2
    using errors by (simp add: settle_dead)
  have c1: "totalDbErrors ?s' = totalDbErrors s + 1"
    by (simp add: whole settle_db)
  have c2: "lastFlushError ?s' = Some (formatError e)"
    by (simp add: whole settle_err)
  have p': "pending ?s' = drop (nat (batchSize cfg)) (pending s)"
    by (simp add: whole settle_pending)
  have c3: "pending s = ?batch @ pending ?s'"
    by (simp add: p')
  have c4: "length (pending ?s') = length (pending s) - length ?batch"
    by (simp add: p' min_def)
  have c5: "deadLetters ?s' = deadLetters s @ ?dead"
    by (simp add: whole settle_dead)
  have c6: "take (length (deadLetters s)) (deadLetters ?s') = deadLetters s"
    by (simp add: c5)
  have c7: "length (deadLetters ?s') = length (deadLetters s) + length ?batch"
    by (simp add: c5)
  have c8: "map RequestRecord.truncate (drop (length (deadLetters s)) (deadLetters ?s'))
              = ?batch"
    by (simp add: c5 truncate_withError_batch)
  have c9: "\<forall>i < length ?batch.
              let d = deadLetters ?s' ! (length (deadLetters s) + i); rec = ?batch ! i
              in trace_id d = trace_id rec \<and> received_at d = received_at rec
               \<and> http_method d = http_method rec \<and> path d = path rec
               \<and> payload d = payload rec \<and> error d = ?err"
    by (simp add: c5 Let_def withError_fields)
  have c10: "\<exists>s1. flushQueue_start cfg s = Some (?batch, s1) \<and> pending s = ?batch @ pending s1"
    by (simp add: start)
  have c11: "\<forall>s2. let s3 = flushQueue_settle (InsertFailed e) now ?batch s2 in
                 totalDbErrors s3 = totalDbErrors s2 + 1
               \<and> lastFlushError s3 = Some (formatError e)
               \<and> pending s3 = pending s2
               \<and> deadLetters s3 = deadLetters s2 @ ?dead
               \<and> map RequestRecord.truncate
                    (drop (length (deadLetters s2)) (deadLetters s3)) = ?batch
               \<and> map error (drop (length (deadLetters s2)) (deadLetters s3))
                    = replicate (length ?batch) ?err"
    unfolding Let_def
    using settle_db settle_err settle_pending settle_dead settle_truncate settle_errors
    by blast
  from c1 c2 c3 c4 c5 c6 c7 c8 c9 c10 c11 show ?thesis
    unfolding Let_def by blast
qed

text \<open>A batch of five records whose insert fails.\<close>

theorem flushQueue_insert_failed_witness:
  "pending five_pending_state \<noteq> [] \<and> \<not> flushing five_pending_state
   \<and> length (pending five_pending_state) = 5
   \<and> pending (flushQueue default_config (InsertFailed connection_refused) 9 five_pending_state) = []
   \<and> totalDbErrors (flushQueue default_config (InsertFailed connection_refused) 9
        five_pending_state) = 1
   \<and> lastFlushError (flushQueue default_config (InsertFailed connection_refused) 9
        five_pending_state) = Some (lit ''connection refused'')
   \<and> length (deadLetters (flushQueue default_config (InsertFailed connection_refused) 9
        five_pending_state)) = 5
   \<and> hd (deadLetters (flushQueue default_config (InsertFailed connection_refused) 9
        five_pending_state))
       = \<lparr>trace_id = lit ''t-1'', received_at = 1700000000000, http_method = lit ''POST'',
          path = lit ''/api/v1/events'', payload = Some (lit ''{}''),
          error = lit ''insert_failed: '' @ lit ''connection refused''\<rparr>
   \<and> map RequestRecord.truncate (deadLetters (flushQueue default_config
        (InsertFailed connection_refused) 9 five_pending_state))
       = pending five_pending_state
   \<and> map error (deadLetters (flushQueue default_config (InsertFailed connection_refused) 9
        five_pending_state))
       = [lit ''insert_failed: '' @ lit ''connection refused'',
          lit ''insert_failed: '' @ lit ''connection refused'',
          lit ''insert_failed: '' @ lit ''connection refused'',
          lit ''insert_failed: '' @ lit ''connection refused'',
          lit ''insert_failed: '' @ lit ''connection refused'']"
  using flushQueue_insert_failed [where s = five_pending_state and cfg = default_config
          and e = connection_refused and now = 9]
  by (simp add: Let_def five_pending_state_def initial_state_def default_config_def
        connection_refused_def sample_record_def withError_def RequestRecord.truncate_def)


section \<open>A failed flush of the dead-letter queue\<close>

text \<open>
  Claim C3. Let the dead-letter queue be non-empty and no dead-letter flush be in flight,
  and let the insert fail with \<open>e\<close>. \<open>totalDbErrors\<close> grows by one. Every record of the
  batch gets the error \<^verbatim>\<open>slice(0, 1000)\<close> of its old error followed by
  \<^verbatim>\<open>; dead_letter_insert_failed: \<close> and the message, at most 1000 code units. If the
  queue and the batch together are at most \<open>maxDeadQueueSize\<close> long, the whole batch is
  put back in front of the queue and nothing is logged; otherwise none of it is put back
  and the overflow line is logged. The last conjunct says the same of the part after the
  insert, from whatever state \<open>s2\<close> the server has reached meanwhile.
\<close>

theorem flushDeadLetters_insert_failed:
  assumes "deadLetters s \<noteq> []" and "\<not> deadFlushing s"
  shows "let batch = take (nat (batchSize cfg)) (deadLetters s);
             rest = drop (nat (batchSize cfg)) (deadLetters s);
             requeue = map (\<lambda>rec. rec\<lparr>error := take 1000
                          (error rec @ lit ''; dead_letter_insert_failed: '' @ formatError e)\<rparr>)
                         batch;
             warning = lit ''Dead letter queue overflow, dropping records.'';
             s' = flushDeadLetters cfg (InsertFailed e) now s
         in totalDbErrors s' = totalDbErrors s + 1
          \<and> (\<forall>rec \<in> set requeue. length (error rec) \<le> 1000)
          \<and> (int (length rest) + int (length requeue) \<le> maxDeadQueueSize cfg \<longrightarrow>
                deadLetters s' = requeue @ rest \<and> console s' = console s)
          \<and> (\<not> int (length rest) + int (length requeue) \<le> maxDeadQueueSize cfg \<longrightarrow>
                deadLetters s' = rest \<and> console s' = console s @ [warning])
          \<and> (\<exists>s1. flushDeadLetters_start cfg s = Some (batch, s1) \<and> deadLetters s1 = rest)
          \<and> (\<forall>s2. let s3 = flushDeadLetters_settle cfg (InsertFailed e) now batch s2 in
                 totalDbErrors s3 = totalDbErrors s2 + 1
               \<and> (int (length (deadLetters s2)) + int (length requeue) \<le> maxDeadQueueSize cfg
                    \<longrightarrow> deadLetters s3 = requeue @ deadLetters s2 \<and> console s3 = console s2)
               \<and> (\<not> int (length (deadLetters s2)) + int (length requeue) \<le> maxDeadQueueSize cfg
                    \<longrightarrow> deadLetters s3 = deadLetters s2 \<and> console s3 = console s2 @ [warning]))"
  using assms
  by (simp add: flushDeadLetters_start_def flushDeadLetters_def flushDeadLetters_settle_def
        Let_def del: take_append)

text \<open>
  Three dead letters and batches of two: with room for three the batch returns to the
  front, with room for two it is dropped whole.
\<close>

theorem flushDeadLetters_insert_failed_witness:
  "deadLetters three_dead_state \<noteq> [] \<and> \<not> deadFlushing three_dead_state
   \<and> deadLetters (flushDeadLetters roomy_config (InsertFailed connection_refused) 9
        three_dead_state)
       = [sample_dead\<lparr>error := take 1000 (lit ''queue_overflow''
             @ lit ''; dead_letter_insert_failed: '' @ lit ''connection refused'')\<rparr>,
          sample_dead\<lparr>error := take 1000 (lit ''queue_overflow''
             @ lit ''; dead_letter_insert_failed: '' @ lit ''connection refused'')\<rparr>,
          sample_dead]
   \<and> console (flushDeadLetters roomy_config (InsertFailed connection_refused) 9
        three_dead_state) = []
   \<and> deadLetters (flushDeadLetters tight_config (InsertFailed connection_refused) 9
        three_dead_state) = [sample_dead]
   \<and> console (flushDeadLetters tight_config (InsertFailed connection_refused) 9
        three_dead_state) = [lit ''Dead letter queue overflow, dropping records.'']
   \<and> totalDbErrors (flushDeadLetters tight_config (InsertFailed connection_refused) 9
        three_dead_state) = 1"
  using flushDeadLetters_insert_failed [of three_dead_state roomy_config connection_refused 9]
        flushDeadLetters_insert_failed [of three_dead_state tight_config connection_refused 9]
  by (simp add: Let_def three_dead_state_def initial_state_def roomy_config_def
        tight_config_def connection_refused_def sample_dead_def withError_def
        del: take_append)


section \<open>Routing a rejected request to the dead-letter queue\<close>

text \<open>
  Claim C5. When \<^verbatim>\<open>enqueueDeadLetter\<close> finds the dead-letter queue at capacity, the
  record enters neither queue, the warning is logged and \<open>totalDeadLetters\<close> stays;
  below capacity the record is appended and \<open>totalDeadLetters\<close> grows by one. The third
  conjunct says the same of an event request that is rejected (bad body or overflow of
  the record queue): the record queue is untouched, and the counter grows exactly when
  the dead-letter queue does.
\<close>

theorem enqueueDeadLetter_capacity:
  "(int (length (deadLetters s)) \<ge> maxDeadQueueSize cfg \<longrightarrow>
      (let s' = enqueueDeadLetter cfg rec err s in
         deadLetters s' = deadLetters s \<and> pending s' = pending s
       \<and> console s' = console s @ [lit ''Dead letter queue overflow, dropping record.'']
       \<and> totalDeadLetters s' = totalDeadLetters s))
   \<and> (int (length (deadLetters s)) < maxDeadQueueSize cfg \<longrightarrow>
      (let s' = enqueueDeadLetter cfg rec err s in
         deadLetters s' = deadLetters s @ [withError rec (take 1000 err)]
       \<and> pending s' = pending s
       \<and> console s' = console s
       \<and> totalDeadLetters s' = totalDeadLetters s + 1))
   \<and> (req_method req = lit ''POST'' \<and> pathname req = lit ''/api/v1/events''
        \<and> status (fst (handleRequest ar cfg req amb s)) \<noteq> 202 \<longrightarrow>
      (let s' = snd (handleRequest ar cfg req amb s) in
         pending s' = pending s
       \<and> (int (length (deadLetters s)) \<ge> maxDeadQueueSize cfg \<longrightarrow>
            deadLetters s' = deadLetters s
          \<and> console s' = console s @ [lit ''Dead letter queue overflow, dropping record.'']
          \<and> totalDeadLetters s' = totalDeadLetters s)
       \<and> (int (length (deadLetters s)) < maxDeadQueueSize cfg \<longrightarrow>
            length (deadLetters s') = length (deadLetters s) + 1
          \<and> console s' = console s
          \<and> totalDeadLetters s' = totalDeadLetters s + 1)))"
proof -
  have full: "int (length (deadLetters s)) \<ge> maxDeadQueueSize cfg \<longrightarrow>
      (let s' = enqueueDeadLetter cfg rec err s in
         deadLetters s' = deadLetters s \<and> pending s' = pending s
       \<and> console s' = console s @ [lit ''Dead letter queue overflow, dropping record.'']
       \<and> totalDeadLetters s' = totalDeadLetters s)"
    by (simp add: enqueueDeadLetter_def)
  have room: "int (length (deadLetters s)) < maxDeadQueueSize cfg \<longrightarrow>
      (let s' = enqueueDeadLetter cfg rec err s in
         deadLetters s' = deadLetters s @ [withError rec (take 1000 err)]
       \<and> pending s' = pending s
       \<and> console s' = console s
       \<and> totalDeadLetters s' = totalDeadLetters s + 1)"
    by (simp add: enqueueDeadLetter_def)
  have rejected: "req_method req = lit ''POST'' \<and> pathname req = lit ''/api/v1/events''
        \<and> status (fst (handleRequest ar cfg req amb s)) \<noteq> 202 \<longrightarrow>
      (let s' = snd (handleRequest ar cfg req amb s) in
         pending s' = pending s
       \<and> (int (length (deadLetters s)) \<ge> maxDeadQueueSize cfg \<longrightarrow>
            deadLetters s' = deadLetters s
          \<and> console s' = console s @ [lit ''Dead letter queue overflow, dropping record.'']
          \<and> totalDeadLetters s' = totalDeadLetters s)
       \<and> (int (length (deadLetters s)) < maxDeadQueueSize cfg \<longrightarrow>
            length (deadLetters s') = length (deadLetters s) + 1
          \<and> console s' = console s
          \<and> totalDeadLetters s' = totalDeadLetters s + 1))"
    by (cases "body req")
       (auto simp: handleRequest_post handleEvent_resume_def handleEvent_begin_def
                   enqueueDeadLetter_def Let_def split: if_splits)
  from full room rejected show ?thesis by blast
qed

text \<open>
  With no room for dead letters the record is dropped, with the default room it is kept;
  then a request that finds five records in a record queue of two, without and with
  room for its dead letter.
\<close>

theorem enqueueDeadLetter_capacity_witness:
  "int (length (deadLetters initial_state)) \<ge> maxDeadQueueSize no_dead_room_config
   \<and> deadLetters (enqueueDeadLetter no_dead_room_config sample_record (lit ''queue_overflow'')
        initial_state) = []
   \<and> totalDeadLetters (enqueueDeadLetter no_dead_room_config sample_record
        (lit ''queue_overflow'') initial_state) = 0
   \<and> console (enqueueDeadLetter no_dead_room_config sample_record (lit ''queue_overflow'')
        initial_state) = [lit ''Dead letter queue overflow, dropping record.'']
   \<and> int (length (deadLetters initial_state)) < maxDeadQueueSize default_config
   \<and> deadLetters (enqueueDeadLetter default_config sample_record (lit ''queue_overflow'')
        initial_state) = [withError sample_record (take 1000 (lit ''queue_overflow''))]
   \<and> totalDeadLetters (enqueueDeadLetter default_config sample_record (lit ''queue_overflow'')
        initial_state) = 1
   \<and> req_method sample_request = lit ''POST''
   \<and> pathname sample_request = lit ''/api/v1/events''
   \<and> status (fst (handleRequest exact_arith no_dead_room_config sample_request sample_ambient
        five_pending_state)) \<noteq> 202
   \<and> pending (snd (handleRequest exact_arith no_dead_room_config sample_request sample_ambient
        five_pending_state)) = pending five_pending_state
   \<and> deadLetters (snd (handleRequest exact_arith no_dead_room_config sample_request sample_ambient
        five_pending_state)) = []
   \<and> status (fst (handleRequest exact_arith small_queue_config sample_request sample_ambient
        five_pending_state)) \<noteq> 202
   \<and> int (length (deadLetters five_pending_state)) < maxDeadQueueSize small_queue_config
   \<and> length (deadLetters (snd (handleRequest exact_arith small_queue_config sample_request sample_ambient
        five_pending_state))) = 1
   \<and> totalDeadLetters (snd (handleRequest exact_arith small_queue_config sample_request sample_ambient
        five_pending_state)) = 1"
proof -
  have a: "int (length (deadLetters initial_state)) \<ge> maxDeadQueueSize no_dead_room_config"
    by (simp add: initial_state_def no_dead_room_config_def)
  have b: "int (length (deadLetters initial_state)) < maxDeadQueueSize default_config"
    by (simp add: initial_state_def default_config_def)
  have c: "status (fst (handleRequest exact_arith no_dead_room_config sample_request sample_ambient
        five_pending_state)) \<noteq> 202"
    by (simp add: handleRequest_post sample_request_post handleEvent_resume_def
          handleEvent_begin_def Let_def five_pending_state_def initial_state_def
          no_dead_room_config_def)
  have d: "int (length (deadLetters five_pending_state)) \<ge> maxDeadQueueSize no_dead_room_config"
    by (simp add: five_pending_state_def initial_state_def no_dead_room_config_def)
  have e: "deadLetters initial_state = []" "totalDeadLetters initial_state = 0"
    "console initial_state = []" "deadLetters five_pending_state = []"
    "totalDeadLetters five_pending_state = 0"
    by (simp_all add: initial_state_def five_pending_state_def)
  have f: "status (fst (handleRequest exact_arith small_queue_config sample_request sample_ambient
        five_pending_state)) \<noteq> 202"
    by (simp add: handleRequest_post sample_request_post handleEvent_resume_def
          handleEvent_begin_def Let_def five_pending_state_def initial_state_def
          small_queue_config_def)
  have g: "int (length (deadLetters five_pending_state)) < maxDeadQueueSize small_queue_config"
    by (simp add: five_pending_state_def initial_state_def small_queue_config_def)
  from enqueueDeadLetter_capacity [where s = initial_state and cfg = no_dead_room_config
         and rec = sample_record and err = "lit ''queue_overflow''"
         and req = sample_request and amb = sample_ambient]
       enqueueDeadLetter_capacity [where s = initial_state and cfg = default_config
         and rec = sample_record and err = "lit ''queue_overflow''"
         and req = sample_request and amb = sample_ambient]
       enqueueDeadLetter_capacity [where s = five_pending_state and cfg = no_dead_room_config
         and rec = sample_record and err = "lit ''queue_overflow''"
         and req = sample_request and amb = sample_ambient]
       enqueueDeadLetter_capacity [where s = five_pending_state and cfg = small_queue_config
         and rec = sample_record and err = "lit ''queue_overflow''"
         and req = sample_request and amb = sample_ambient]
       a b c d e f g sample_request_post
  show ?thesis by (simp add: Let_def)
qed


section \<open>What \<open>totalDeadLetters\<close> counts\<close>

text \<open>
  Claim C9. No flush changes \<open>totalDeadLetters\<close>: not the flush of the record queue,
  whose failure appends its batch to the dead-letter queue, and not the flush of the
  dead-letter queue, whose failure puts its batch back; this holds for the whole call,
  for the part after the insert from any state, and for the four flush events of the
  server. \<^verbatim>\<open>enqueueDeadLetter\<close>, called only from the admission path, adds one exactly
  when it appends a record.
\<close>

theorem totalDeadLetters_admission_only:
  "totalDeadLetters (flushQueue cfg r now s) = totalDeadLetters s
   \<and> totalDeadLetters (flushQueue_settle r now batch s) = totalDeadLetters s
   \<and> totalDeadLetters (flushDeadLetters cfg r now s) = totalDeadLetters s
   \<and> totalDeadLetters (flushDeadLetters_settle cfg r now dbatch s) = totalDeadLetters s
   \<and> totalDeadLetters (vars (step ar cfg sv FlushTick)) = totalDeadLetters (vars sv)
   \<and> totalDeadLetters (vars (step ar cfg sv (FlushSettled r now))) = totalDeadLetters (vars sv)
   \<and> totalDeadLetters (vars (step ar cfg sv DeadFlushTick)) = totalDeadLetters (vars sv)
   \<and> totalDeadLetters (vars (step ar cfg sv (DeadFlushSettled r now))) = totalDeadLetters (vars sv)
   \<and> totalDeadLetters (enqueueDeadLetter cfg rec err s) =
       (if length (deadLetters (enqueueDeadLetter cfg rec err s)) = length (deadLetters s) + 1
        then totalDeadLetters s + 1 else totalDeadLetters s)"
proof -
  have settle: "totalDeadLetters (flushQueue_settle r now b s') = totalDeadLetters s'" for s' b
    by (cases r) (simp_all add: flushQueue_settle_def Let_def)
  have dsettle: "totalDeadLetters (flushDeadLetters_settle cfg r now b s') = totalDeadLetters s'"
    for s' b
    by (cases r) (simp_all add: flushDeadLetters_settle_def Let_def)
  have whole: "totalDeadLetters (flushQueue cfg r now s) = totalDeadLetters s"
    by (simp add: flushQueue_def flushQueue_start_def settle)
  have dwhole: "totalDeadLetters (flushDeadLetters cfg r now s) = totalDeadLetters s"
    by (simp add: flushDeadLetters_def flushDeadLetters_start_def dsettle)
  have tick: "totalDeadLetters (vars (step ar cfg sv FlushTick)) = totalDeadLetters (vars sv)"
    by (simp add: flushQueue_start_def)
  have settled:
    "totalDeadLetters (vars (step ar cfg sv (FlushSettled r now))) = totalDeadLetters (vars sv)"
    by (simp add: settle split: option.splits)
  have dtick: "totalDeadLetters (vars (step ar cfg sv DeadFlushTick)) = totalDeadLetters (vars sv)"
    by (simp add: flushDeadLetters_start_def)
  have dsettled:
    "totalDeadLetters (vars (step ar cfg sv (DeadFlushSettled r now))) = totalDeadLetters (vars sv)"
    by (simp add: dsettle split: option.splits)
  have enqueue: "totalDeadLetters (enqueueDeadLetter cfg rec err s) =
       (if length (deadLetters (enqueueDeadLetter cfg rec err s)) = length (deadLetters s) + 1
        then totalDeadLetters s + 1 else totalDeadLetters s)"
    by (simp add: enqueueDeadLetter_def)
  from settle dsettle whole dwhole tick settled dtick dsettled enqueue show ?thesis by simp
qed

text \<open>
  A failed flush moves five records into the dead-letter queue and a failed dead-letter
  flush puts two back; the counter stays at zero both times.
\<close>

theorem totalDeadLetters_admission_only_witness:
  "length (deadLetters (flushQueue default_config (InsertFailed connection_refused) 9
      five_pending_state)) = 5
   \<and> totalDeadLetters (flushQueue default_config (InsertFailed connection_refused) 9
      five_pending_state) = 0
   \<and> length (deadLetters (flushDeadLetters roomy_config (InsertFailed connection_refused) 9
      three_dead_state)) = 3
   \<and> totalDeadLetters (flushDeadLetters roomy_config (InsertFailed connection_refused) 9
      three_dead_state) = 0"
proof -
  have z: "totalDeadLetters five_pending_state = 0" "totalDeadLetters three_dead_state = 0"
    by (simp_all add: five_pending_state_def three_dead_state_def initial_state_def)
  have five: "length (deadLetters (flushQueue default_config (InsertFailed connection_refused) 9
      five_pending_state)) = 5"
    by (simp add: flushQueue_def flushQueue_start_def flushQueue_settle_def Let_def
          five_pending_state_def initial_state_def default_config_def)
  have three: "length (deadLetters (flushDeadLetters roomy_config
      (InsertFailed connection_refused) 9 three_dead_state)) = 3"
    by (simp add: flushDeadLetters_def flushDeadLetters_start_def flushDeadLetters_settle_def
          Let_def three_dead_state_def initial_state_def roomy_config_def)
  from totalDeadLetters_admission_only [where cfg = default_config
         and r = "InsertFailed connection_refused" and now = 9 and s = five_pending_state]
       totalDeadLetters_admission_only [where cfg = roomy_config
         and r = "InsertFailed connection_refused" and now = 9 and s = three_dead_state]
       z five three
  show ?thesis by simp
qed


section \<open>An empty body\<close>

text \<open>
  Claim C10. An event request whose body reads as the empty string and which is accepted
  (status 202) appends exactly one record to the record queue, and the payload of that
  record is \<open>None\<close>, the value \<^verbatim>\<open>null\<close> of a record without payload.
\<close>

theorem empty_body_null_payload:
  assumes "req_method req = lit ''POST''" and "pathname req = lit ''/api/v1/events''"
    and "body req = BodyText []"
    and "status (fst (handleRequest ar cfg req amb s)) = 202"
  shows "\<exists>rec. pending (snd (handleRequest ar cfg req amb s)) = pending s @ [rec]
             \<and> payload rec = None
             \<and> trace_id rec = (case x_trace_id req of Some t \<Rightarrow> t | None \<Rightarrow> randomUUID amb)
             \<and> deadLetters (snd (handleRequest ar cfg req amb s)) = deadLetters s"
  using assms
  by (auto simp: handleRequest_post handleEvent_resume_def handleEvent_begin_def Let_def
           split: if_splits)

theorem empty_body_null_payload_witness:
  "req_method empty_request = lit ''POST'' \<and> pathname empty_request = lit ''/api/v1/events''
   \<and> body empty_request = BodyText []
   \<and> status (fst (handleRequest exact_arith default_config empty_request sample_ambient initial_state)) = 202
   \<and> map payload
       (pending (snd (handleRequest exact_arith default_config empty_request sample_ambient initial_state)))
       = [None]"
proof -
  have h: "req_method empty_request = lit ''POST''"
    "pathname empty_request = lit ''/api/v1/events''"
    "body empty_request = BodyText []"
    by (simp_all add: empty_request_def)
  have st: "status (fst (handleRequest exact_arith default_config empty_request sample_ambient
              initial_state)) = 202"
    by (simp add: handleRequest_post h handleEvent_resume_def handleEvent_begin_def Let_def
          initial_state_def default_config_def)
  from empty_body_null_payload [OF h st] h st show ?thesis
    by (auto simp: initial_state_def)
qed


section \<open>Three admissions into a queue of two\<close>

lemma accept_step:
  assumes "req_method req = lit ''POST''" "pathname req = lit ''/api/v1/events''"
    "body req = BodyText t" "int (length (pending s)) < maxQueueSize cfg"
  shows "status (fst (handleRequest ar cfg req amb s)) = 202"
    "length (pending (snd (handleRequest ar cfg req amb s))) = length (pending s) + 1"
    "deadLetters (snd (handleRequest ar cfg req amb s)) = deadLetters s"
    "totalReceived (snd (handleRequest ar cfg req amb s)) = totalReceived s + 1"
    "totalAccepted (snd (handleRequest ar cfg req amb s)) = totalAccepted s + 1"
    "totalRejected (snd (handleRequest ar cfg req amb s)) = totalRejected s"
  using assms
  by (simp_all add: handleRequest_post handleEvent_resume_def handleEvent_begin_def Let_def)

lemma overflow_step:
  assumes "req_method req = lit ''POST''" "pathname req = lit ''/api/v1/events''"
    "body req = BodyText t" "int (length (pending s)) \<ge> maxQueueSize cfg"
    "int (length (deadLetters s)) < maxDeadQueueSize cfg"
  shows "status (fst (handleRequest ar cfg req amb s)) = 503"
    "pending (snd (handleRequest ar cfg req amb s)) = pending s"
    "\<exists>d. deadLetters (snd (handleRequest ar cfg req amb s)) = deadLetters s @ [d]
         \<and> error d = lit ''queue_overflow''"
    "totalReceived (snd (handleRequest ar cfg req amb s)) = totalReceived s + 1"
    "totalAccepted (snd (handleRequest ar cfg req amb s)) = totalAccepted s"
    "totalRejected (snd (handleRequest ar cfg req amb s)) = totalRejected s + 1"
  using assms
  by (simp_all add: handleRequest_post handleEvent_resume_def handleEvent_begin_def Let_def
        enqueueDeadLetter_def withError_def length_lit)

lemma received_once:
  assumes "req_method req = lit ''POST''" "pathname req = lit ''/api/v1/events''"
  shows "totalReceived (snd (handleRequest ar cfg req amb s)) = totalReceived s + 1"
  using assms
  by (cases "body req")
     (simp_all add: handleRequest_post handleEvent_resume_def handleEvent_begin_def Let_def
        enqueueDeadLetter_def)

text \<open>
  Claim C4, as it is written, leaves \<open>maxDeadQueueSize\<close> open. With no room for dead
  letters the third request is still rejected, but \<^verbatim>\<open>enqueueDeadLetter\<close> drops its
  record: the dead-letter queue holds no record, not one.
\<close>

theorem three_admissions_counterexample:
  "maxQueueSize no_dead_room_config = 2
   \<and> pending initial_state = [] \<and> deadLetters initial_state = []
   \<and> body sample_request = BodyText (lit ''{}'')
   \<and> length (pending (admit3 no_dead_room_config)) = 2
   \<and> totalRejected (admit3 no_dead_room_config) = 1
   \<and> totalAccepted (admit3 no_dead_room_config) = 2
   \<and> totalReceived (admit3 no_dead_room_config) = 3
   \<and> deadLetters (admit3 no_dead_room_config) = []
   \<and> length (deadLetters (admit3 no_dead_room_config)) \<noteq> 1"
  by (simp add: admit3_def no_dead_room_config_def initial_state_def handleRequest_post
        sample_request_post handleEvent_resume_def handleEvent_begin_def Let_def
        enqueueDeadLetter_def)

text \<open>
  Claim C4, amended: with \<open>maxQueueSize = 2\<close> and \<open>maxDeadQueueSize \<ge> 1\<close>, three event
  requests whose bodies are read, handled from empty queues with no flush in between,
  leave two records in the record queue and one in the dead-letter queue, with error
  \<^verbatim>\<open>queue_overflow\<close>; \<open>totalRejected\<close> has grown by 1, \<open>totalAccepted\<close> by 2 and
  \<open>totalReceived\<close> by 3 (from zero on a fresh server). And every event request, whatever
  its outcome and the state, adds exactly one to \<open>totalReceived\<close>.
\<close>

theorem three_admissions:
  assumes cap: "maxQueueSize cfg = 2" and room: "maxDeadQueueSize cfg \<ge> 1"
    and empty: "pending s = []" "deadLetters s = []"
    and r1: "req_method r1 = lit ''POST''" "pathname r1 = lit ''/api/v1/events''"
            "body r1 = BodyText t1"
    and r2: "req_method r2 = lit ''POST''" "pathname r2 = lit ''/api/v1/events''"
            "body r2 = BodyText t2"
    and r3: "req_method r3 = lit ''POST''" "pathname r3 = lit ''/api/v1/events''"
            "body r3 = BodyText t3"
    and r: "req_method req = lit ''POST''" "pathname req = lit ''/api/v1/events''"
  shows "(let s1 = snd (handleRequest ar cfg r1 a1 s);
              s2 = snd (handleRequest ar cfg r2 a2 s1);
              s3 = snd (handleRequest ar cfg r3 a3 s2)
          in length (pending s3) = 2
           \<and> length (deadLetters s3) = 1
           \<and> error (hd (deadLetters s3)) = lit ''queue_overflow''
           \<and> totalRejected s3 = totalRejected s + 1
           \<and> totalAccepted s3 = totalAccepted s + 2
           \<and> totalReceived s3 = totalReceived s + 3)
       \<and> totalReceived (snd (handleRequest ar cfg req amb s0)) = totalReceived s0 + 1"
proof -
  define s1 where "s1 = snd (handleRequest ar cfg r1 a1 s)"
  define s2 where "s2 = snd (handleRequest ar cfg r2 a2 s1)"
  define s3 where "s3 = snd (handleRequest ar cfg r3 a3 s2)"
  have p0: "int (length (pending s)) < maxQueueSize cfg" using cap empty by simp
  note f1 = accept_step [OF r1 p0, where amb = a1 and ar = ar, folded s1_def]
  have p1: "int (length (pending s1)) < maxQueueSize cfg" using cap empty f1(2) by simp
  note f2 = accept_step [OF r2 p1, where amb = a2 and ar = ar, folded s2_def]
  have p2: "int (length (pending s2)) \<ge> maxQueueSize cfg" using cap empty f1(2) f2(2) by simp
  have d2: "int (length (deadLetters s2)) < maxDeadQueueSize cfg"
    using room empty f1(3) f2(3) by simp
  note f3 = overflow_step [OF r3 p2 d2, where amb = a3 and ar = ar, folded s3_def]
  from f3(3) obtain d where d: "deadLetters s3 = deadLetters s2 @ [d]"
      "error d = lit ''queue_overflow''"
    by blast
  have "length (pending s3) = 2" using f1(2) f2(2) f3(2) empty by simp
  moreover have "length (deadLetters s3) = 1" using d f1(3) f2(3) empty by simp
  moreover have "error (hd (deadLetters s3)) = lit ''queue_overflow''"
    using d f1(3) f2(3) empty by simp
  moreover have "totalRejected s3 = totalRejected s + 1" using f1(6) f2(6) f3(6) by simp
  moreover have "totalAccepted s3 = totalAccepted s + 2" using f1(5) f2(5) f3(5) by simp
  moreover have "totalReceived s3 = totalReceived s + 3" using f1(4) f2(4) f3(4) by simp
  moreover have "totalReceived (snd (handleRequest ar cfg req amb s0)) = totalReceived s0 + 1"
    by (rule received_once [OF r])
  ultimately show ?thesis by (simp add: Let_def s1_def s2_def s3_def)
qed

theorem three_admissions_witness:
  "maxQueueSize small_queue_config = 2 \<and> maxDeadQueueSize small_queue_config \<ge> 1
   \<and> pending initial_state = [] \<and> deadLetters initial_state = []
   \<and> req_method sample_request = lit ''POST''
   \<and> pathname sample_request = lit ''/api/v1/events''
   \<and> body sample_request = BodyText (lit ''{}'')
   \<and> length (pending (admit3 small_queue_config)) = 2
   \<and> length (deadLetters (admit3 small_queue_config)) = 1
   \<and> error (hd (deadLetters (admit3 small_queue_config))) = lit ''queue_overflow''
   \<and> totalRejected (admit3 small_queue_config) = 1
   \<and> totalAccepted (admit3 small_queue_config) = 2
   \<and> totalReceived (admit3 small_queue_config) = 3"
proof -
  have c: "maxQueueSize small_queue_config = 2" "maxDeadQueueSize small_queue_config \<ge> 1"
    by (simp_all add: small_queue_config_def)
  have e: "pending initial_state = []" "deadLetters initial_state = []"
    by (simp_all add: initial_state_def)
  have z: "totalRejected initial_state = 0" "totalAccepted initial_state = 0"
    "totalReceived initial_state = 0"
    by (simp_all add: initial_state_def)
  from three_admissions [OF c e sample_request_post sample_request_post sample_request_post
         sample_request_post(1,2), where ar = exact_arith and ?a1.0 = sample_ambient
         and ?a2.0 = sample_ambient and ?a3.0 = sample_ambient]
  show ?thesis using c e z sample_request_post by (simp add: admit3_def Let_def)
qed


section \<open>The length of the queues\<close>

text \<open>
  The record queue grows in one place only, behind the check of line 197, so it never
  holds more than \<open>maxQueueSize\<close> records in any state the server reaches.
\<close>

lemma step_pending_bound:
  assumes "0 \<le> maxQueueSize cfg"
    and "int (length (pending (vars sv))) \<le> maxQueueSize cfg"
  shows "int (length (pending (vars (step ar cfg sv ev)))) \<le> maxQueueSize cfg"
proof (cases ev)
  case Arrive
  with assms show ?thesis by (simp add: handleEvent_begin_def)
next
  case (BodyRead req amb)
  with assms show ?thesis
    by (cases "body req")
       (auto simp: handleEvent_resume_def enqueueDeadLetter_def Let_def)
next
  case FlushTick
  with assms show ?thesis by (auto simp: flushQueue_start_def)
next
  case (FlushSettled r now)
  with assms show ?thesis
    by (cases r) (auto simp: flushQueue_settle_def Let_def split: option.splits)
next
  case DeadFlushTick
  with assms show ?thesis by (auto simp: flushDeadLetters_start_def)
next
  case (DeadFlushSettled r now)
  with assms show ?thesis
    by (cases r) (auto simp: flushDeadLetters_settle_def Let_def split: option.splits)
qed

lemma run_pending_bound:
  assumes "0 \<le> maxQueueSize cfg"
    and "int (length (pending (vars sv))) \<le> maxQueueSize cfg"
  shows "int (length (pending (vars (run ar cfg sv evs)))) \<le> maxQueueSize cfg"
  using assms(2)
proof (induction evs arbitrary: sv)
  case Nil
  then show ?case by (simp add: run_def)
next
  case (Cons ev evs)
  from step_pending_bound [OF assms(1) Cons.prems]
  have "int (length (pending (vars (run ar cfg (step ar cfg sv ev) evs)))) \<le> maxQueueSize cfg"
    by (rule Cons.IH)
  then show ?case by (simp add: run_def)
qed

lemma reachable_pending_bound:
  "0 \<le> maxQueueSize cfg \<Longrightarrow>
   int (length (pending (vars (run ar cfg initial_server evs)))) \<le> maxQueueSize cfg"
  by (rule run_pending_bound) (simp_all add: initial_server_def initial_state_def)

text \<open>
  The dead-letter queue grows in three places. Two of them check the bound first
  (lines 301 and 289), so every step other than the settling of a failed flush of the
  record queue keeps the dead-letter queue within \<open>maxDeadQueueSize\<close>.
\<close>

lemma step_dead_bound:
  assumes "int (length (deadLetters (vars sv))) \<le> maxDeadQueueSize cfg"
    and "\<forall>e now. ev \<noteq> FlushSettled (InsertFailed e) now"
  shows "int (length (deadLetters (vars (step ar cfg sv ev)))) \<le> maxDeadQueueSize cfg"
proof (cases ev)
  case Arrive
  with assms show ?thesis by (simp add: handleEvent_begin_def)
next
  case (BodyRead req amb)
  with assms show ?thesis
    by (cases "body req")
       (auto simp: handleEvent_resume_def enqueueDeadLetter_def Let_def)
next
  case FlushTick
  with assms show ?thesis by (auto simp: flushQueue_start_def)
next
  case (FlushSettled r now)
  with assms show ?thesis
    by (cases r) (auto simp: flushQueue_settle_def Let_def split: option.splits)
next
  case DeadFlushTick
  with assms show ?thesis by (auto simp: flushDeadLetters_start_def)
next
  case (DeadFlushSettled r now)
  with assms show ?thesis
    by (cases r) (auto simp: flushDeadLetters_settle_def Let_def split: option.splits)
qed

text \<open>
  Claim C1. The third place, the \<^verbatim>\<open>catch\<close> block of \<^verbatim>\<open>flushQueue\<close> (lines 247-252),
  pushes the whole failed batch with no check. With \<open>maxDeadQueueSize = 1\<close>, two accepted
  requests and one flush whose insert fails leave two records in the dead-letter queue:
  the bound of the claim is exceeded in a state the server reaches.
\<close>

theorem dead_letter_bound_exceeded:
  "maxDeadQueueSize tiny_dead_config = 1
   \<and> length (pending (vars (run exact_arith tiny_dead_config initial_server failed_flush_events))) = 0
   \<and> length (deadLetters (vars (run exact_arith tiny_dead_config initial_server failed_flush_events))) = 2
   \<and> int (length (deadLetters (vars (run exact_arith tiny_dead_config initial_server failed_flush_events))))
       > maxDeadQueueSize tiny_dead_config"
  by (simp add: run_def failed_flush_events_def tiny_dead_config_def initial_server_def
        initial_state_def sample_request_post handleEvent_resume_def handleEvent_begin_def
        Let_def flushQueue_start_def flushQueue_settle_def)


section \<open>Recording a latency\<close>

lemma findIndex_Some_iff:
  "findIndex P xs = Some k \<longleftrightarrow> k < length xs \<and> P (xs ! k) \<and> (\<forall>j<k. \<not> P (xs ! j))"
proof (induction xs arbitrary: k)
  case Nil
  then show ?case by simp
next
  case (Cons x xs)
  show ?case
  proof (cases "P x")
    case True
    then show ?thesis by (cases k) auto
  next
    case False
    show ?thesis
    proof (cases k)
      case 0
      with False show ?thesis by simp
    next
      case (Suc k')
      have "(\<forall>j<Suc k'. \<not> P ((x # xs) ! j)) \<longleftrightarrow> (\<forall>j<k'. \<not> P (xs ! j))"
        using False by (auto simp: less_Suc_eq_0_disj)
      with Suc False Cons.IH [of k'] show ?thesis by auto
    qed
  qed
qed

lemma findIndex_None_iff: "findIndex P xs = None \<longleftrightarrow> (\<forall>x \<in> set xs. \<not> P x)"
  by (induction xs) auto

lemma buckets_length: "length latencyBucketsMs = 13"
  by (simp add: latencyBucketsMs_def)

lemma buckets_increasing: "sorted_wrt (<) latencyBucketsMs"
  by (simp add: latencyBucketsMs_def)

lemma buckets_last: "latencyBucketsMs ! (length latencyBucketsMs - 1) = 10000"
  by (simp add: latencyBucketsMs_def)

lemma buckets_le_last: "x \<in> set latencyBucketsMs \<Longrightarrow> x \<le> 10000"
  by (auto simp: latencyBucketsMs_def)

lemma findIndex_buckets_None:
  "findIndex (\<lambda>limit. v \<le> real limit) latencyBucketsMs = None \<longleftrightarrow> v > 10000"
proof -
  have "(\<forall>x \<in> set latencyBucketsMs. \<not> v \<le> real x) \<longleftrightarrow> v > 10000"
    by (auto simp: latencyBucketsMs_def)
  then show ?thesis by (simp add: findIndex_None_iff)
qed

text \<open>
  Claim C7. The histogram has one counter for each of the thirteen bounds and one more
  for the overflow. \<^verbatim>\<open>recordLatency\<close> with the value \<open>v\<close> adds one to exactly one
  counter, at index \<open>k\<close>: for \<open>v \<le> 10000\<close> the bound at \<open>k\<close> is at least \<open>v\<close> and every
  bound before it is below \<open>v\<close> (a value equal to a bound goes to that bound's bucket);
  for \<open>v > 10000\<close> it is the overflow counter. The running sum becomes the sum of the
  old running sum and \<open>v\<close> as the machine adds two doubles (\<open>num_add\<close>), and the count
  grows by one. Recording 1, 3, 1000 and 50000 on a fresh histogram adds one each to the
  buckets of the bounds 1, 5 and 1000 and to the overflow counter, adds the four values
  to the sum one after the other, and counts four.
\<close>

theorem recordLatency_bucket:
  assumes "length (latencyHistogram s) = length latencyBucketsMs + 1"
  shows "(\<exists>k \<le> length latencyBucketsMs.
            latencyHistogram (recordLatency ar v s)
              = (latencyHistogram s)[k := latencyHistogram s ! k + 1]
          \<and> (v \<le> 10000 \<longrightarrow> k < length latencyBucketsMs \<and> v \<le> real (latencyBucketsMs ! k)
                \<and> (\<forall>j<k. real (latencyBucketsMs ! j) < v))
          \<and> (v > 10000 \<longrightarrow> k = length latencyBucketsMs))
       \<and> latencySumMs (recordLatency ar v s) = num_add ar (latencySumMs s) v
       \<and> latencyCount (recordLatency ar v s) = latencyCount s + 1
       \<and> latencyBucketsMs ! 0 = 1 \<and> latencyBucketsMs ! 2 = 5 \<and> latencyBucketsMs ! 9 = 1000
       \<and> latencyHistogram (recordLatency ar 50000 (recordLatency ar 1000 (recordLatency ar 3
            (recordLatency ar 1 initial_state))))
           = [1, 0, 1, 0, 0, 0, 0, 0, 0, 1, 0, 0, 0, 1]
       \<and> latencySumMs (recordLatency ar 50000 (recordLatency ar 1000 (recordLatency ar 3
            (recordLatency ar 1 initial_state))))
           = num_add ar (num_add ar (num_add ar (num_add ar 0 1) 3) 1000) 50000
       \<and> latencyCount (recordLatency ar 50000 (recordLatency ar 1000 (recordLatency ar 3
            (recordLatency ar 1 initial_state)))) = 4"
proof -
  have bucket: "\<exists>k \<le> length latencyBucketsMs.
            latencyHistogram (recordLatency ar v s)
              = (latencyHistogram s)[k := latencyHistogram s ! k + 1]
          \<and> (v \<le> 10000 \<longrightarrow> k < length latencyBucketsMs \<and> v \<le> real (latencyBucketsMs ! k)
                \<and> (\<forall>j<k. real (latencyBucketsMs ! j) < v))
          \<and> (v > 10000 \<longrightarrow> k = length latencyBucketsMs)"
  proof (cases "findIndex (\<lambda>limit. v \<le> real limit) latencyBucketsMs")
    case None
    then have big: "v > 10000" by (simp add: findIndex_buckets_None)
    have "latencyHistogram (recordLatency ar v s)
            = (latencyHistogram s)[length latencyBucketsMs :=
                 latencyHistogram s ! length latencyBucketsMs + 1]"
      using None assms by (simp add: recordLatency_def Let_def)
    with big show ?thesis by auto
  next
    case (Some k)
    then have k: "k < length latencyBucketsMs" "v \<le> real (latencyBucketsMs ! k)"
      "\<forall>j<k. \<not> v \<le> real (latencyBucketsMs ! j)"
      by (simp_all add: findIndex_Some_iff)
    have small: "v \<le> 10000"
    proof -
      have "latencyBucketsMs ! k \<le> 10000" using k(1) by (intro buckets_le_last nth_mem)
      then have "real (latencyBucketsMs ! k) \<le> 10000" by simp
      with k(2) show ?thesis by linarith
    qed
    have "latencyHistogram (recordLatency ar v s)
            = (latencyHistogram s)[k := latencyHistogram s ! k + 1]"
      using Some by (simp add: recordLatency_def Let_def)
    with k small show ?thesis by (intro exI [of _ k]) (simp add: not_le)
  qed
  have sum: "latencySumMs (recordLatency ar v s) = num_add ar (latencySumMs s) v"
    and count: "latencyCount (recordLatency ar v s) = latencyCount s + 1"
    by (simp_all add: recordLatency_def Let_def)
  have bounds: "latencyBucketsMs ! 0 = 1 \<and> latencyBucketsMs ! 2 = 5 \<and> latencyBucketsMs ! 9 = 1000"
    by (simp add: latencyBucketsMs_def)
  have example: "latencyHistogram (recordLatency ar 50000 (recordLatency ar 1000 (recordLatency ar 3
            (recordLatency ar 1 initial_state))))
           = [1, 0, 1, 0, 0, 0, 0, 0, 0, 1, 0, 0, 0, 1]"
    by (simp add: recordLatency_def initial_state_def latencyBucketsMs_def)
  have example_sum: "latencySumMs (recordLatency ar 50000 (recordLatency ar 1000
            (recordLatency ar 3 (recordLatency ar 1 initial_state))))
           = num_add ar (num_add ar (num_add ar (num_add ar 0 1) 3) 1000) 50000"
    by (simp add: recordLatency_def Let_def initial_state_def)
  have example_count: "latencyCount (recordLatency ar 50000 (recordLatency ar 1000
            (recordLatency ar 3 (recordLatency ar 1 initial_state)))) = 4"
    by (simp add: recordLatency_def Let_def initial_state_def)
  from bucket sum count bounds example example_sum example_count show ?thesis by blast
qed

text \<open>
  The value 5 on a fresh histogram: a tie, counted in the bucket of the bound 5; the sum
  \<open>0 + 5\<close> is a double, so the machine adds it without rounding.
\<close>

theorem recordLatency_bucket_witness:
  "length (latencyHistogram initial_state) = length latencyBucketsMs + 1
   \<and> latencyHistogram (recordLatency exact_arith 5 initial_state)
       = [0, 0, 1, 0, 0, 0, 0, 0, 0, 0, 0, 0, 0, 0]
   \<and> latencySumMs (recordLatency exact_arith 5 initial_state) = 5
   \<and> latencyCount (recordLatency exact_arith 5 initial_state) = 1"
proof -
  have h: "length (latencyHistogram initial_state) = length latencyBucketsMs + 1"
    by (simp add: initial_state_def)
  from recordLatency_bucket [OF h, where ar = exact_arith and v = 5] obtain k where
    k: "latencyHistogram (recordLatency exact_arith 5 initial_state)
          = (latencyHistogram initial_state)[k := latencyHistogram initial_state ! k + 1]"
       "k < length latencyBucketsMs" "5 \<le> real (latencyBucketsMs ! k)"
       "\<forall>j<k. real (latencyBucketsMs ! j) < 5"
    and rest: "latencySumMs (recordLatency exact_arith 5 initial_state)
                 = num_add exact_arith (latencySumMs initial_state) 5"
      "latencyCount (recordLatency exact_arith 5 initial_state) = latencyCount initial_state + 1"
    by auto
  have "k = 2"
  proof (rule ccontr)
    assume "k \<noteq> 2"
    then consider "k < 2" | "2 < k" by linarith
    then show False
    proof cases
      case 1
      then have "k = 0 \<or> k = 1" by auto
      with k(3) show False by (auto simp: latencyBucketsMs_def)
    next
      case 2
      with k(4) have "real (latencyBucketsMs ! 2) < 5" by blast
      then show False by (simp add: latencyBucketsMs_def)
    qed
  qed
  with k(1) rest h show ?thesis
    by (simp add: initial_state_def latencyBucketsMs_def exact_arith_def)
qed


section \<open>Percentiles\<close>

lemma buckets_index_mono:
  assumes "j < length latencyBucketsMs" "k < length latencyBucketsMs"
    and "latencyBucketsMs ! j < latencyBucketsMs ! k"
  shows "j < k"
proof (rule ccontr)
  assume "\<not> j < k"
  then consider "k = j" | "k < j" by linarith
  then show False
  proof cases
    case 1
    with assms(3) show False by simp
  next
    case 2
    with assms(1) buckets_increasing have "latencyBucketsMs ! k < latencyBucketsMs ! j"
      by (simp add: sorted_wrt_iff_nth_less)
    with assms(3) show False by simp
  qed
qed

lemma cumulative_Suc:
  "i < length h \<Longrightarrow> sum_list (take (Suc i) h) = sum_list (take i h) + h ! i"
  by (simp add: take_Suc_conv_app_nth)

text \<open>The loop returns at the first index \<open>k\<close> whose running total reaches the threshold.\<close>

lemma percentile_loop_hit:
  assumes "k < length h" and "i \<le> k"
    and "thr \<le> real (sum_list (take (Suc k) h))"
    and "\<forall>j. i \<le> j \<and> j < k \<longrightarrow> real (sum_list (take (Suc j) h)) < thr"
  shows "percentile_loop thr h i (sum_list (take i h)) =
           (if k < length latencyBucketsMs then latencyBucketsMs ! k
            else latencyBucketsMs ! (length latencyBucketsMs - 1))"
  using assms
proof (induction "k - i" arbitrary: i)
  case 0
  then have "i = k" by simp
  with 0 show ?case
    by (subst percentile_loop.simps) (simp add: cumulative_Suc Let_def)
next
  case (Suc n)
  then have lt: "i < k" by simp
  with Suc.prems have below: "real (sum_list (take (Suc i) h)) < thr" by simp
  have il: "i < length h" using lt Suc.prems(1) by simp
  have unfold: "percentile_loop thr h i (sum_list (take i h))
                = percentile_loop thr h (Suc i) (sum_list (take (Suc i) h))"
    using il below by (subst percentile_loop.simps) (simp add: cumulative_Suc Let_def)
  have "percentile_loop thr h (Suc i) (sum_list (take (Suc i) h)) =
           (if k < length latencyBucketsMs then latencyBucketsMs ! k
            else latencyBucketsMs ! (length latencyBucketsMs - 1))"
  proof (rule Suc.hyps(1))
    show "n = k - Suc i" using Suc.hyps(2) by simp
    show "k < length h" by (rule Suc.prems(1))
    show "Suc i \<le> k" using lt by simp
    show "thr \<le> real (sum_list (take (Suc k) h))" by (rule Suc.prems(3))
    show "\<forall>j. Suc i \<le> j \<and> j < k \<longrightarrow> real (sum_list (take (Suc j) h)) < thr"
      using Suc.prems(4) by simp
  qed
  with unfold show ?case by simp
qed

text \<open>When no running total reaches the threshold, the loop falls through to line 344.\<close>

lemma percentile_loop_miss:
  assumes "\<forall>j. i \<le> j \<and> j < length h \<longrightarrow> real (sum_list (take (Suc j) h)) < thr"
  shows "percentile_loop thr h i (sum_list (take i h)) =
           latencyBucketsMs ! (length latencyBucketsMs - 1)"
  using assms
proof (induction "length h - i" arbitrary: i)
  case 0
  then show ?case by (subst percentile_loop.simps) simp
next
  case (Suc n)
  then have il: "i < length h" by simp
  with Suc.prems have below: "real (sum_list (take (Suc i) h)) < thr" by simp
  have unfold: "percentile_loop thr h i (sum_list (take i h))
                = percentile_loop thr h (Suc i) (sum_list (take (Suc i) h))"
    using il below by (subst percentile_loop.simps) (simp add: cumulative_Suc Let_def)
  have "percentile_loop thr h (Suc i) (sum_list (take (Suc i) h)) =
           latencyBucketsMs ! (length latencyBucketsMs - 1)"
  proof (rule Suc.hyps(1))
    show "n = length h - Suc i" using Suc.hyps(2) by simp
    show "\<forall>j. Suc i \<le> j \<and> j < length h \<longrightarrow> real (sum_list (take (Suc j) h)) < thr"
      using Suc.prems by simp
  qed
  with unfold show ?case by simp
qed

lemma overflow_only_histogram:
  "latencyHistogram overflow_only_state = replicate 13 0 @ [1]"
proof -
  have "latencyHistogram overflow_only_state = [0, 0, 0, 0, 0, 0, 0, 0, 0, 0, 0, 0, 0, 1]"
    by (simp add: overflow_only_state_def recordLatency_def initial_state_def
          latencyBucketsMs_def)
  moreover have "[0, 0, 0, 0, 0, 0, 0, 0, 0, 0, 0, 0, 0, 1] = replicate 13 (0::nat) @ [1]"
    by (simp add: numeral_eq_Suc)
  ultimately show ?thesis by simp
qed

lemma overflow_only_count: "latencyCount overflow_only_state = 1"
  by (simp add: overflow_only_state_def recordLatency_def Let_def initial_state_def)

lemma overflow_only_cumulative: "i < 13 \<Longrightarrow> cumulativeCount overflow_only_state i = 0"
  by (simp add: cumulativeCount_def overflow_only_histogram min_def)

text \<open>
  Claim C6, as it is written, fails when the percentile lies in the overflow bucket.
  After the single sample 50000, \<^verbatim>\<open>percentile(0.5)\<close> is 10000, the largest bound; but
  the cumulative count up to and including the bucket of 10000 is 0, below 0.5 times the
  one sample, so 10000 is not a bound whose cumulative count reaches the threshold. The
  product \<open>1 * 0.5\<close> is a double, so the machine computes it without rounding.
\<close>

theorem percentile_overflow_counterexample:
  "latencyCount overflow_only_state = 1
   \<and> num_mul exact_arith (real (latencyCount overflow_only_state)) (1/2) = 1/2
   \<and> percentile exact_arith (1/2) overflow_only_state = 10000
   \<and> latencyBucketsMs ! 12 = 10000
   \<and> cumulativeCount overflow_only_state 12 = 0
   \<and> \<not> (1/2) * real (latencyCount overflow_only_state)
          \<le> real (cumulativeCount overflow_only_state 12)"
  by (simp add: overflow_only_state_def percentile_def recordLatency_def initial_state_def
        latencyBucketsMs_def cumulativeCount_def percentile_loop.simps exact_arith_def)

text \<open>
  Claim C6, amended. With no sample \<^verbatim>\<open>percentile(p)\<close> is 0. With samples, the
  threshold is the product of the sample count and \<open>p\<close> as the machine multiplies two
  doubles (\<open>num_mul\<close>, line 336). If the cumulative count of one of the thirteen bounded
  buckets reaches the threshold, the result is the smallest bucket bound whose
  cumulative count does; if none does (the percentile lies in the overflow bucket), the
  result is the largest bound, 10000. This holds for every \<open>p\<close>.
\<close>

theorem percentile_smallest_bound:
  assumes len: "length (latencyHistogram s) = length latencyBucketsMs + 1"
  shows "(latencyCount s = 0 \<longrightarrow> percentile ar p s = 0)
       \<and> (latencyCount s \<noteq> 0
            \<and> (\<exists>i < length latencyBucketsMs.
                  num_mul ar (real (latencyCount s)) p \<le> real (cumulativeCount s i))
          \<longrightarrow> (\<exists>i < length latencyBucketsMs.
                 percentile ar p s = latencyBucketsMs ! i
               \<and> num_mul ar (real (latencyCount s)) p \<le> real (cumulativeCount s i)
               \<and> (\<forall>j < length latencyBucketsMs.
                     latencyBucketsMs ! j < latencyBucketsMs ! i \<longrightarrow>
                     real (cumulativeCount s j) < num_mul ar (real (latencyCount s)) p)))
       \<and> (latencyCount s \<noteq> 0
            \<and> \<not> (\<exists>i < length latencyBucketsMs.
                  num_mul ar (real (latencyCount s)) p \<le> real (cumulativeCount s i))
          \<longrightarrow> percentile ar p s = 10000)"
proof -
  let ?thr = "num_mul ar (real (latencyCount s)) p"
  let ?h = "latencyHistogram s"
  let ?reach = "\<lambda>i. ?thr \<le> real (sum_list (take (Suc i) ?h))"
  have zero: "latencyCount s = 0 \<longrightarrow> percentile ar p s = 0"
    by (simp add: percentile_def)
  have run: "latencyCount s \<noteq> 0 \<Longrightarrow>
               percentile ar p s = percentile_loop ?thr ?h 0 (sum_list (take 0 ?h))"
    by (simp add: percentile_def)
  have found: "\<exists>i < length latencyBucketsMs.
                 percentile ar p s = latencyBucketsMs ! i \<and> ?reach i
               \<and> (\<forall>j < length latencyBucketsMs.
                     latencyBucketsMs ! j < latencyBucketsMs ! i \<longrightarrow> \<not> ?reach j)"
    if nz: "latencyCount s \<noteq> 0" and ex: "\<exists>i < length latencyBucketsMs. ?reach i"
  proof -
    define P where "P = (\<lambda>i. i < length latencyBucketsMs \<and> ?reach i)"
    from ex have "\<exists>i. P i" unfolding P_def by blast
    then have "\<exists>k. P k \<and> (\<forall>m<k. \<not> P m)" using exists_least_iff [of P] by blast
    then obtain k where k: "P k" "\<forall>m<k. \<not> P m" by blast
    have kP: "k < length latencyBucketsMs \<and> ?reach k" using k(1) unfolding P_def .
    have kmin: "\<not> ?reach j" if "j < k" for j
    proof
      assume "?reach j"
      with that kP have "P j" unfolding P_def by simp
      with k(2) that show False by blast
    qed
    have "percentile_loop ?thr ?h 0 (sum_list (take 0 ?h)) =
            (if k < length latencyBucketsMs then latencyBucketsMs ! k
             else latencyBucketsMs ! (length latencyBucketsMs - 1))"
    proof (rule percentile_loop_hit)
      show "k < length ?h" using kP len by simp
      show "0 \<le> k" by simp
      show "?thr \<le> real (sum_list (take (Suc k) ?h))" using kP by simp
      show "\<forall>j. 0 \<le> j \<and> j < k \<longrightarrow> real (sum_list (take (Suc j) ?h)) < ?thr"
        using kmin by (simp add: not_le)
    qed
    with run [OF nz] kP have res: "percentile ar p s = latencyBucketsMs ! k" by simp
    have "\<not> ?reach j"
      if "j < length latencyBucketsMs" "latencyBucketsMs ! j < latencyBucketsMs ! k" for j
      using that kP kmin buckets_index_mono by blast
    with res kP show ?thesis by blast
  qed
  have lost: "percentile ar p s = 10000"
    if nz: "latencyCount s \<noteq> 0" and nex: "\<not> (\<exists>i < length latencyBucketsMs. ?reach i)"
  proof (cases "?reach (length latencyBucketsMs)")
    case True
    have "percentile_loop ?thr ?h 0 (sum_list (take 0 ?h)) =
            (if length latencyBucketsMs < length latencyBucketsMs
             then latencyBucketsMs ! length latencyBucketsMs
             else latencyBucketsMs ! (length latencyBucketsMs - 1))"
    proof (rule percentile_loop_hit)
      show "length latencyBucketsMs < length ?h" using len by simp
      show "0 \<le> length latencyBucketsMs" by simp
      show "?thr \<le> real (sum_list (take (Suc (length latencyBucketsMs)) ?h))" using True .
      show "\<forall>j. 0 \<le> j \<and> j < length latencyBucketsMs \<longrightarrow>
              real (sum_list (take (Suc j) ?h)) < ?thr"
        using nex by (simp add: not_le)
    qed
    with run [OF nz] buckets_last show ?thesis by simp
  next
    case False
    have "percentile_loop ?thr ?h 0 (sum_list (take 0 ?h)) =
            latencyBucketsMs ! (length latencyBucketsMs - 1)"
    proof (rule percentile_loop_miss, intro allI impI)
      fix j assume "0 \<le> j \<and> j < length ?h"
      then have "j < length latencyBucketsMs \<or> j = length latencyBucketsMs"
        using len by auto
      then show "real (sum_list (take (Suc j) ?h)) < ?thr"
        using nex False by (auto simp: not_le)
    qed
    with run [OF nz] buckets_last show ?thesis by simp
  qed
  from zero found lost show ?thesis
    by (simp add: cumulativeCount_def not_le)
qed

text \<open>
  The threshold is the rounded product, not the product of the reals. With 35 samples in
  the first bucket and 465 in the second, a \<open>p\<close> whose machine product with 500 is 35
  gives the bound 1, also when the product of the reals lies above 35 and is not
  reached by the first bucket (in double arithmetic \<^verbatim>\<open>500 * 0.07\<close> is 35, and the
  double \<^verbatim>\<open>0.07\<close> lies above 7/100).
\<close>

lemma percentile_rounded_threshold:
  assumes "latencyHistogram s = [35, 465, 0, 0, 0, 0, 0, 0, 0, 0, 0, 0, 0, 0]"
    and "latencyCount s = 500"
    and "num_mul ar 500 p = 35"
  shows "percentile ar p s = 1"
    and "35 < 500 * p \<Longrightarrow> \<not> real (latencyCount s) * p \<le> real (cumulativeCount s 0)"
  using assms
  by (simp_all add: percentile_def percentile_loop.simps latencyBucketsMs_def
        cumulativeCount_def)

text \<open>
  One sample of 3 ms (the median is the bound 5), one sample above every bound (the
  median is reported as 10000), and no sample (0).
\<close>

theorem percentile_smallest_bound_witness:
  "length (latencyHistogram (recordLatency exact_arith 3 initial_state))
     = length latencyBucketsMs + 1
   \<and> latencyCount (recordLatency exact_arith 3 initial_state) \<noteq> 0
   \<and> (\<exists>i < length latencyBucketsMs.
         num_mul exact_arith (real (latencyCount (recordLatency exact_arith 3 initial_state)))
           (1/2) \<le> real (cumulativeCount (recordLatency exact_arith 3 initial_state) i))
   \<and> (\<exists>i < length latencyBucketsMs.
         percentile exact_arith (1/2) (recordLatency exact_arith 3 initial_state)
           = latencyBucketsMs ! i
         \<and> num_mul exact_arith (real (latencyCount (recordLatency exact_arith 3 initial_state)))
           (1/2) \<le> real (cumulativeCount (recordLatency exact_arith 3 initial_state) i))
   \<and> length (latencyHistogram overflow_only_state) = length latencyBucketsMs + 1
   \<and> latencyCount overflow_only_state \<noteq> 0
   \<and> \<not> (\<exists>i < length latencyBucketsMs.
         num_mul exact_arith (real (latencyCount overflow_only_state)) (1/2)
           \<le> real (cumulativeCount overflow_only_state i))
   \<and> percentile exact_arith (1/2) overflow_only_state = 10000
   \<and> length (latencyHistogram initial_state) = length latencyBucketsMs + 1
   \<and> latencyCount initial_state = 0
   \<and> percentile exact_arith (1/2) initial_state = 0"
proof -
  let ?s = "recordLatency exact_arith 3 initial_state"
  have l1: "length (latencyHistogram ?s) = length latencyBucketsMs + 1"
    by (simp add: recordLatency_def initial_state_def latencyBucketsMs_def)
  have n1: "latencyCount ?s \<noteq> 0" by (simp add: recordLatency_def Let_def)
  have "num_mul exact_arith (real (latencyCount ?s)) (1/2) \<le> real (cumulativeCount ?s 2)"
    by (simp add: recordLatency_def initial_state_def latencyBucketsMs_def cumulativeCount_def
          exact_arith_def)
  then have e1: "\<exists>i < length latencyBucketsMs.
         num_mul exact_arith (real (latencyCount ?s)) (1/2) \<le> real (cumulativeCount ?s i)"
    by (intro exI [of _ 2]) (simp add: buckets_length)
  have l2: "length (latencyHistogram overflow_only_state) = length latencyBucketsMs + 1"
    by (simp add: overflow_only_histogram buckets_length)
  have n2: "latencyCount overflow_only_state \<noteq> 0"
    by (simp add: overflow_only_count)
  have e2: "\<not> (\<exists>i < length latencyBucketsMs.
         num_mul exact_arith (real (latencyCount overflow_only_state)) (1/2)
           \<le> real (cumulativeCount overflow_only_state i))"
    using overflow_only_cumulative overflow_only_count
    by (auto simp: buckets_length exact_arith_def)
  have l3: "length (latencyHistogram initial_state) = length latencyBucketsMs + 1"
    by (simp add: initial_state_def)
  have n3: "latencyCount initial_state = 0" by (simp add: initial_state_def)
  from percentile_smallest_bound [OF l1, where ar = exact_arith and p = "1/2"]
       percentile_smallest_bound [OF l2, where ar = exact_arith and p = "1/2"]
       percentile_smallest_bound [OF l3, where ar = exact_arith and p = "1/2"]
       l1 n1 e1 l2 n2 e2 l3 n3
  show ?thesis by blast
qed

end
